theory Spec2Isabelle
  imports Main "HOL-Library.Multiset"
begin

unbundle bit_operations_syntax

section \<open>Data model\<close>

text \<open>
  Elements, contexts, render interfaces and matrices are objects that the code handles
  through pointers. A pointer is modelled as a natural number naming the object, a
  nullable pointer as an \<open>option\<close> (\<open>None\<close> is \<open>nullptr\<close>).

  Coordinates of type \<open>int\<close> are modelled as mathematical integers: signed overflow is
  undefined in C++, so the code has no behaviour to model there. Values of type
  \<open>float\<close> are kept abstract as a type variable \<open>'f\<close>; the code only compares, adds
  and subtracts them, and the theorems below assume no law of these operations.
\<close>

type_synonym element_ptr = nat
type_synonym context_ptr = nat
type_synonym render_interface_ptr = nat
type_synonym matrix_ptr = nat

type_synonym Vector2i = "int \<times> int"
type_synonym 'f Vector2f = "'f \<times> 'f"

datatype Area = MARGIN | BORDER | PADDING | CONTENT

datatype Edge = Edge_TOP | Edge_RIGHT | Edge_BOTTOM | Edge_LEFT

datatype Orientation = VERTICAL | HORIZONTAL

datatype TransformState = TransformState (GetTransform: "matrix_ptr option")

text \<open>
  What the getters of one \<open>Element\<close> return. \<open>GetBox\<close> is the element's box,
  \<open>relative_offset\<close> and \<open>offset_parent\<close> are what \<open>SetOffset\<close> stores.
\<close>

record ('f, 'box) Element =
  GetTagName :: string
  IsClassSet :: "string \<Rightarrow> bool"
  IsClippingEnabled :: bool
  GetClippingIgnoreDepth :: int
  GetClientWidth :: 'f
  GetClientHeight :: 'f
  GetScrollWidth :: 'f
  GetScrollHeight :: 'f
  GetAbsoluteOffset :: "Area \<Rightarrow> 'f Vector2f"
  GetBox :: 'box
  GetScrollbarSize :: "Orientation \<Rightarrow> 'f"
  height_type_is_Auto :: bool
  relative_offset :: "'f Vector2f"
  offset_parent :: "element_ptr option"
  GetRenderInterface :: "render_interface_ptr option"
  GetContext :: "context_ptr option"
  GetTransformState :: "TransformState option"

text \<open>
  The document: the parent link and the ordered children of every element
  (\<open>GetNumChildren\<close> is the length of the list, \<open>GetChild i\<close> its \<open>i\<close>-th entry),
  and the elements themselves.
\<close>

record ('f, 'box) Document =
  GetParentNode :: "element_ptr \<Rightarrow> element_ptr option"
  GetChildren :: "element_ptr \<Rightarrow> element_ptr list"
  element :: "element_ptr \<Rightarrow> ('f, 'box) Element"

text \<open>
  The class \<open>Box\<close> is used through four of its methods, which are parameters of the model.
\<close>

record ('f, 'box) BoxAPI =
  GetSize :: "'box \<Rightarrow> Area \<Rightarrow> 'f Vector2f"
  GetPosition :: "'box \<Rightarrow> Area \<Rightarrow> 'f Vector2f"
  GetEdge :: "'box \<Rightarrow> Area \<Rightarrow> Edge \<Rightarrow> 'f"
  SetContent :: "'box \<Rightarrow> 'f Vector2f \<Rightarrow> 'box"

section \<open>The clipping region of an element\<close>

text \<open>
  The body of the overflow test in \<open>GetClippingRegion\<close>: the first ancestor rectangle is
  adopted while the region still holds \<open>Vector2i(-1, -1)\<close> twice, later ones are
  intersected with it.
\<close>

definition merge_clip_region :: "Vector2i \<times> Vector2i \<Rightarrow> Vector2i \<times> Vector2i \<Rightarrow> Vector2i \<times> Vector2i" where
  "merge_clip_region clip rect =
     (let clip_origin = fst clip; clip_dimensions = snd clip;
          element_origin = fst rect; element_dimensions = snd rect
      in if clip_origin = (-1, -1) \<and> clip_dimensions = (-1, -1)
         then (element_origin, element_dimensions)
         else
           (let top_left = (max (fst clip_origin) (fst element_origin),
                            max (snd clip_origin) (snd element_origin));
                bottom_right =
                  (min (fst clip_origin + fst clip_dimensions) (fst element_origin + fst element_dimensions),
                   min (snd clip_origin + snd clip_dimensions) (snd element_origin + snd element_dimensions))
            in (top_left,
                (max 0 (fst bottom_right - fst top_left), max 0 (snd bottom_right - snd top_left)))))"

text \<open>
  The \<open>while\<close> loop of \<open>GetClippingRegion\<close>. It follows parent links, so it is a partial
  function: on a cyclic parent chain it does not return. \<open>RealToInteger\<close> is
  \<open>Math::RealToInteger\<close>, a parameter.
\<close>

partial_function (option) GetClippingRegion_loop ::
  "('f::ord \<Rightarrow> int) \<Rightarrow> ('f, 'box) BoxAPI \<Rightarrow> ('f, 'box) Document \<Rightarrow>
   Vector2i \<times> Vector2i \<Rightarrow> int \<Rightarrow> element_ptr option \<Rightarrow> (Vector2i \<times> Vector2i) option" where
  "GetClippingRegion_loop RealToInteger B D clip num_ignored_clips clipping_element =
     (case clipping_element of
        None \<Rightarrow> Some clip
      | Some c \<Rightarrow>
          (let ce = element D c;
               clip' =
                 (if num_ignored_clips = 0 \<and> IsClippingEnabled ce
                  then (if GetClientWidth ce < GetScrollWidth ce \<or> GetClientHeight ce < GetScrollHeight ce
                        then (let element_origin_f = GetAbsoluteOffset ce CONTENT;
                                  element_dimensions_f = GetSize B (GetBox ce) CONTENT;
                                  element_origin = (RealToInteger (fst element_origin_f), RealToInteger (snd element_origin_f));
                                  element_dimensions = (RealToInteger (fst element_dimensions_f), RealToInteger (snd element_dimensions_f))
                              in merge_clip_region clip (element_origin, element_dimensions))
                        else clip)
                  else clip);
               num_ignored_clips' =
                 (if 0 < num_ignored_clips
                  then (if IsClippingEnabled ce then num_ignored_clips - 1 else num_ignored_clips)
                  else num_ignored_clips);
               clipping_element_ignore_clips = GetClippingIgnoreDepth ce
           in if clipping_element_ignore_clips < 0 then Some clip'
              else GetClippingRegion_loop RealToInteger B D clip'
                     (max num_ignored_clips' clipping_element_ignore_clips) (GetParentNode D c)))"

text \<open>
  \<open>GetClippingRegion\<close> returns its boolean result together with the two output
  parameters \<open>clip_origin\<close> and \<open>clip_dimensions\<close>.
\<close>

definition GetClippingRegion ::
  "('f::ord \<Rightarrow> int) \<Rightarrow> ('f, 'box) BoxAPI \<Rightarrow> ('f, 'box) Document \<Rightarrow> element_ptr \<Rightarrow>
   (bool \<times> Vector2i \<times> Vector2i) option" where
  "GetClippingRegion RealToInteger B D e =
     (let clip_origin = (-1, -1); clip_dimensions = (-1, -1);
          num_ignored_clips = GetClippingIgnoreDepth (element D e)
      in if num_ignored_clips < 0 then Some (False, clip_origin, clip_dimensions)
         else
           (case GetClippingRegion_loop RealToInteger B D (clip_origin, clip_dimensions)
                   num_ignored_clips (GetParentNode D e) of
              None \<Rightarrow> None
            | Some (clip_origin', clip_dimensions') \<Rightarrow>
                Some (0 \<le> fst clip_dimensions' \<and> 0 \<le> snd clip_dimensions', clip_origin', clip_dimensions')))"

section \<open>Applying the clipping region\<close>

text \<open>
  A render interface is observed through the calls it receives. The state of the renderer
  side holds the contexts, the static map \<open>previous_matrix\<close> of \<open>ApplyTransform\<close>, the
  matrices that transform states own, and the calls issued so far, each with the render
  interface it went to.
\<close>

datatype RenderCall =
    EnableScissorRegion bool
  | SetScissorRegion int int int int
  | SetTransform "matrix_ptr option"

record ('ctx, 'm) RenderState =
  contexts :: "context_ptr \<Rightarrow> 'ctx"
  previous_matrix :: "render_interface_ptr \<rightharpoonup> matrix_ptr option"
  matrices :: "matrix_ptr \<Rightarrow> 'm"
  render_calls :: "(render_interface_ptr \<times> RenderCall) list"

text \<open>
  The class \<open>Context\<close> and the global \<open>GetRenderInterface()\<close> are parameters of the
  model. \<open>GetActiveClipRegion\<close> returns a boolean and writes two output parameters, which
  the code reads only when the boolean is true: the result is \<open>Some (origin, dimensions)\<close>
  for true and \<open>None\<close> for false.
\<close>

record 'ctx ContextAPI =
  GetActiveClipRegion :: "'ctx \<Rightarrow> (Vector2i \<times> Vector2i) option"
  SetActiveClipRegion :: "'ctx \<Rightarrow> Vector2i \<Rightarrow> Vector2i \<Rightarrow> 'ctx"
  Context_GetRenderInterface :: "'ctx \<Rightarrow> render_interface_ptr option"
  Core_GetRenderInterface :: "render_interface_ptr option"

definition ApplyActiveClipRegion ::
  "'ctx ContextAPI \<Rightarrow> context_ptr \<Rightarrow> render_interface_ptr option \<Rightarrow>
   ('ctx, 'm) RenderState \<Rightarrow> ('ctx, 'm) RenderState" where
  "ApplyActiveClipRegion C context render_interface s =
     (case render_interface of
        None \<Rightarrow> s
      | Some ri \<Rightarrow>
          (case GetActiveClipRegion C (contexts s context) of
             None \<Rightarrow> s\<lparr>render_calls := render_calls s @ [(ri, EnableScissorRegion False)]\<rparr>
           | Some (origin, dimensions) \<Rightarrow>
               s\<lparr>render_calls := render_calls s @
                    [(ri, EnableScissorRegion True),
                     (ri, SetScissorRegion (fst origin) (snd origin) (fst dimensions) (snd dimensions))]\<rparr>))"

text \<open>
  \<open>SetClippingRegion\<close> takes a nullable element and a nullable context. It returns
  nothing when the call of \<open>GetClippingRegion\<close> inside it does not return.
\<close>

definition SetClippingRegion ::
  "('f::ord \<Rightarrow> int) \<Rightarrow> ('f, 'box) BoxAPI \<Rightarrow> 'ctx ContextAPI \<Rightarrow> ('f, 'box) Document \<Rightarrow>
   element_ptr option \<Rightarrow> context_ptr option \<Rightarrow> ('ctx, 'm) RenderState \<Rightarrow>
   (bool \<times> ('ctx, 'm) RenderState) option" where
  "SetClippingRegion RealToInteger B C D elem context s =
     (let render_interface =
            (case elem of
               Some e \<Rightarrow> GetRenderInterface (element D e)
             | None \<Rightarrow>
                 (case context of
                    Some c \<Rightarrow>
                      (case Context_GetRenderInterface C (contexts s c) of
                         Some ri \<Rightarrow> Some ri
                       | None \<Rightarrow> Core_GetRenderInterface C)
                  | None \<Rightarrow> None));
          context' =
            (case elem of
               Some e \<Rightarrow> (case context of None \<Rightarrow> GetContext (element D e) | Some c \<Rightarrow> Some c)
             | None \<Rightarrow> context)
      in case render_interface of
           None \<Rightarrow> Some (False, s)
         | Some ri \<Rightarrow>
             (case context' of
                None \<Rightarrow> Some (False, s)
              | Some c \<Rightarrow>
                  (case (case elem of
                           None \<Rightarrow> Some (False, (-1, -1), (-1, -1))
                         | Some e \<Rightarrow> GetClippingRegion RealToInteger B D e) of
                     None \<Rightarrow> None
                   | Some (clip, clip_origin, clip_dimensions) \<Rightarrow>
                       (if (case GetActiveClipRegion C (contexts s c) of
                              None \<Rightarrow> clip
                            | Some (current_origin, current_dimensions) \<Rightarrow>
                                \<not> clip \<or> (clip \<and>
                                  (clip_origin \<noteq> current_origin \<or> clip_dimensions \<noteq> current_dimensions)))
                        then Some (True,
                               ApplyActiveClipRegion C c (Some ri)
                                 (s\<lparr>contexts := (contexts s)
                                      (c := SetActiveClipRegion C (contexts s c) clip_origin clip_dimensions)\<rparr>))
                        else Some (True, s)))))"

section \<open>Applying the transform\<close>

text \<open>
  \<open>previous_matrix.emplace(render_interface, nullptr)\<close> adds the entry \<open>nullptr\<close> when the
  render interface has none and yields a reference to the entry's value, here
  \<open>old_transform\<close>. Pointers are compared, the matrices are not read.
\<close>

definition ApplyTransform ::
  "('f, 'box) Document \<Rightarrow> element_ptr \<Rightarrow> ('ctx, 'm) RenderState \<Rightarrow> bool \<times> ('ctx, 'm) RenderState" where
  "ApplyTransform D e s =
     (case GetRenderInterface (element D e) of
        None \<Rightarrow> (False, s)
      | Some render_interface \<Rightarrow>
          (let emplaced =
                 (case previous_matrix s render_interface of
                    None \<Rightarrow> (previous_matrix s)(render_interface \<mapsto> None)
                  | Some old \<Rightarrow> previous_matrix s);
               old_transform =
                 (case previous_matrix s render_interface of None \<Rightarrow> None | Some old \<Rightarrow> old);
               new_transform =
                 (case GetTransformState (element D e) of
                    None \<Rightarrow> None
                  | Some state \<Rightarrow> GetTransform state)
           in if old_transform \<noteq> new_transform
              then (True, s\<lparr>previous_matrix := emplaced(render_interface \<mapsto> new_transform),
                             render_calls := render_calls s @ [(render_interface, SetTransform new_transform)]\<rparr>)
              else (True, s\<lparr>previous_matrix := emplaced\<rparr>)))"

section \<open>Positioning an element\<close>

text \<open>
  \<open>LayoutEngine::BuildBox\<close> is a parameter: the box it builds from the containing block
  and the element. \<open>SetBox\<close> and \<open>SetElementOffset\<close> dereference the parent pointer; the
  result \<open>None\<close> stands for the failed assertion or the null dereference.
\<close>

definition SetBox ::
  "('f::minus, 'box) BoxAPI \<Rightarrow> ('f Vector2f \<Rightarrow> ('f, 'box) Document \<Rightarrow> element_ptr \<Rightarrow> 'box) \<Rightarrow>
   ('f, 'box) Document \<Rightarrow> element_ptr \<Rightarrow> ('f, 'box) Document option" where
  "SetBox B BuildBox D e =
     (case GetParentNode D e of
        None \<Rightarrow> None
      | Some parent \<Rightarrow>
          (let containing_block = GetSize B (GetBox (element D parent)) CONTENT;
               containing_block_x = fst containing_block - GetScrollbarSize (element D parent) VERTICAL;
               containing_block_y = snd containing_block - GetScrollbarSize (element D parent) HORIZONTAL;
               box = BuildBox (containing_block_x, containing_block_y) D e;
               box' = (if \<not> height_type_is_Auto (element D e)
                       then SetContent B box (fst (GetSize B box CONTENT), containing_block_y)
                       else box)
           in Some (D\<lparr>element := (element D)(e := (element D e)\<lparr>GetBox := box'\<rparr>)\<rparr>)))"

definition SetElementOffset ::
  "('f::plus, 'box) BoxAPI \<Rightarrow> ('f, 'box) Document \<Rightarrow> element_ptr \<Rightarrow> 'f Vector2f \<Rightarrow>
   ('f, 'box) Document option" where
  "SetElementOffset B D e offset =
     (case GetParentNode D e of
        None \<Rightarrow> None
      | Some parent \<Rightarrow>
          (let relative_offset = GetPosition B (GetBox (element D parent)) CONTENT;
               relative_offset = (fst relative_offset + fst offset, snd relative_offset + snd offset);
               relative_offset_x = fst relative_offset + GetEdge B (GetBox (element D e)) MARGIN Edge_LEFT;
               relative_offset_y = snd relative_offset + GetEdge B (GetBox (element D e)) MARGIN Edge_TOP
           in Some (D\<lparr>element := (element D)
                       (e := (element D e)\<lparr>relative_offset := (relative_offset_x, relative_offset_y),
                                             offset_parent := Some parent\<rparr>)\<rparr>)))"

text \<open>
  \<open>PositionElement\<close>. The anchor is a bit mask; the values \<open>RIGHT\<close> and \<open>BOTTOM\<close> of the
  enumeration \<open>PositionAnchor\<close> are parameters.
\<close>

definition PositionElement ::
  "('f::{plus,minus}, 'box) BoxAPI \<Rightarrow> ('f Vector2f \<Rightarrow> ('f, 'box) Document \<Rightarrow> element_ptr \<Rightarrow> 'box) \<Rightarrow>
   int \<Rightarrow> int \<Rightarrow> ('f, 'box) Document \<Rightarrow> element_ptr \<Rightarrow> 'f Vector2f \<Rightarrow> int \<Rightarrow>
   (bool \<times> ('f, 'box) Document) option" where
  "PositionElement B BuildBox RIGHT BOTTOM D e offset anchor =
     (case GetParentNode D e of
        None \<Rightarrow> Some (False, D)
      | Some parent \<Rightarrow>
          (case SetBox B BuildBox D e of
             None \<Rightarrow> None
           | Some D1 \<Rightarrow>
               (case GetParentNode D1 e of
                  None \<Rightarrow> None
                | Some parent1 \<Rightarrow>
                    (let containing_block = GetSize B (GetBox (element D1 parent1)) CONTENT;
                         element_block = GetSize B (GetBox (element D1 e)) MARGIN;
                         resolved_offset_x =
                           (if anchor AND RIGHT \<noteq> 0
                            then fst containing_block - (fst element_block + fst offset)
                            else fst offset);
                         resolved_offset_y =
                           (if anchor AND BOTTOM \<noteq> 0
                            then snd containing_block - (snd element_block + snd offset)
                            else snd offset)
                     in case SetElementOffset B D1 e (resolved_offset_x, resolved_offset_y) of
                          None \<Rightarrow> None
                        | Some D2 \<Rightarrow> Some (True, D2)))))"

section \<open>Searching the tree\<close>

text \<open>
  The two breadth-first searches. The queue holds element pointers; the loop pops the
  front, appends the element to the result list when it matches, and pushes its children
  in order. The loops are partial functions: they return on a finite tree only.
\<close>

partial_function (option) GetElementsByTagName_loop ::
  "('f, 'box) Document \<Rightarrow> string \<Rightarrow> element_ptr list \<Rightarrow> element_ptr list \<Rightarrow> element_ptr list option" where
  "GetElementsByTagName_loop D tag search_queue elements =
     (case search_queue of
        [] \<Rightarrow> Some elements
      | e # rest \<Rightarrow>
          GetElementsByTagName_loop D tag (rest @ GetChildren D e)
            (if GetTagName (element D e) = tag then elements @ [e] else elements))"

definition GetElementsByTagName ::
  "('f, 'box) Document \<Rightarrow> element_ptr list \<Rightarrow> element_ptr \<Rightarrow> string \<Rightarrow> element_ptr list option" where
  "GetElementsByTagName D elements root_element tag =
     GetElementsByTagName_loop D tag (GetChildren D root_element) elements"

partial_function (option) GetElementsByClassName_loop ::
  "('f, 'box) Document \<Rightarrow> string \<Rightarrow> element_ptr list \<Rightarrow> element_ptr list \<Rightarrow> element_ptr list option" where
  "GetElementsByClassName_loop D class_name search_queue elements =
     (case search_queue of
        [] \<Rightarrow> Some elements
      | e # rest \<Rightarrow>
          GetElementsByClassName_loop D class_name (rest @ GetChildren D e)
            (if IsClassSet (element D e) class_name then elements @ [e] else elements))"

definition GetElementsByClassName ::
  "('f, 'box) Document \<Rightarrow> element_ptr list \<Rightarrow> element_ptr \<Rightarrow> string \<Rightarrow> element_ptr list option" where
  "GetElementsByClassName D elements root_element class_name =
     GetElementsByClassName_loop D class_name (GetChildren D root_element) elements"

section \<open>The clipping resolver as the specification words it\<close>

text \<open>
  The specification describes the resolver as a state machine over the ancestors of a
  node, taken in order from the parent upward. Its state is the accumulated region and
  the number \<open>skip\<close> of clips still to be ignored; the region is unset when it holds the
  reserved value.
\<close>

definition spec_unset :: "Vector2i \<times> Vector2i" where
  "spec_unset = ((-1, -1), (-1, -1))"

definition spec_overflows :: "('f::ord, 'box) Element \<Rightarrow> bool" where
  "spec_overflows a \<longleftrightarrow> GetClientWidth a < GetScrollWidth a \<or> GetClientHeight a < GetScrollHeight a"

definition spec_content_rect ::
  "('f \<Rightarrow> int) \<Rightarrow> ('f, 'box) BoxAPI \<Rightarrow> ('f, 'box) Element \<Rightarrow> Vector2i \<times> Vector2i" where
  "spec_content_rect rnd B a =
     (let position = GetAbsoluteOffset a CONTENT; extent = GetSize B (GetBox a) CONTENT
      in ((rnd (fst position), rnd (snd position)), (rnd (fst extent), rnd (snd extent))))"

definition spec_intersect :: "Vector2i \<times> Vector2i \<Rightarrow> Vector2i \<times> Vector2i \<Rightarrow> Vector2i \<times> Vector2i" where
  "spec_intersect region rect =
     (case (region, rect) of (((ox, oy), (w, h)), ((ox', oy'), (w', h'))) \<Rightarrow>
        (let left = max ox ox'; top = max oy oy';
             right = min (ox + w) (ox' + w'); bottom = min (oy + h) (oy' + h')
         in ((left, top), (max 0 (right - left), max 0 (bottom - top)))))"

fun spec_walk ::
  "('f::ord \<Rightarrow> int) \<Rightarrow> ('f, 'box) BoxAPI \<Rightarrow> (Vector2i \<times> Vector2i) \<times> int \<Rightarrow>
   ('f, 'box) Element list \<Rightarrow> Vector2i \<times> Vector2i" where
  "spec_walk rnd B (region, skip) [] = region"
| "spec_walk rnd B (region, skip) (a # ancestors) =
     (let region1 =
            (if skip = 0 \<and> IsClippingEnabled a \<and> spec_overflows a
             then (if region = spec_unset then spec_content_rect rnd B a
                   else spec_intersect region (spec_content_rect rnd B a))
             else region);
          skip1 = (if skip > 0 \<and> IsClippingEnabled a then skip - 1 else skip)
      in if GetClippingIgnoreDepth a < 0 then region1
         else spec_walk rnd B (region1, max skip1 (GetClippingIgnoreDepth a)) ancestors)"

definition spec_resolve ::
  "('f::ord \<Rightarrow> int) \<Rightarrow> ('f, 'box) BoxAPI \<Rightarrow> int \<Rightarrow> ('f, 'box) Element list \<Rightarrow>
   bool \<times> Vector2i \<times> Vector2i" where
  "spec_resolve rnd B ignore_depth ancestors =
     (if ignore_depth < 0 then (False, spec_unset)
      else (let region = spec_walk rnd B (spec_unset, ignore_depth) ancestors
            in (region \<noteq> spec_unset \<and> 0 \<le> fst (snd region) \<and> 0 \<le> snd (snd region), region)))"

section \<open>Anchored positioning as the specification words it\<close>

text \<open>
  The specification defines the containing block as the size of the parent's content box
  with the thickness of the parent's vertical scrollbar taken from the width and that of
  its horizontal scrollbar taken from the height, and resolves an anchored offset against
  \<open>containingWidth\<close> and \<open>containingHeight\<close>. \<open>spec_offset\<close> is the offset the element
  gets when these are the extents of that containing block: the origin of the parent's
  content box plus the resolved offset plus the element's own left and top margin.
\<close>

definition spec_containing_block :: "('f::minus, 'box) BoxAPI \<Rightarrow> ('f, 'box) Element \<Rightarrow> 'f Vector2f" where
  "spec_containing_block B parent =
     (fst (GetSize B (GetBox parent) CONTENT) - GetScrollbarSize parent VERTICAL,
      snd (GetSize B (GetBox parent) CONTENT) - GetScrollbarSize parent HORIZONTAL)"

definition spec_offset ::
  "('f::{plus,minus}, 'box) BoxAPI \<Rightarrow> ('f, 'box) Element \<Rightarrow> ('f, 'box) Element \<Rightarrow> 'f Vector2f \<Rightarrow>
   bool \<Rightarrow> bool \<Rightarrow> 'f Vector2f" where
  "spec_offset B parent node offset right bottom =
     (let containingWidth = fst (spec_containing_block B parent);
          containingHeight = snd (spec_containing_block B parent);
          marginBoxWidth = fst (GetSize B (GetBox node) MARGIN);
          marginBoxHeight = snd (GetSize B (GetBox node) MARGIN);
          x = (if right then containingWidth - (marginBoxWidth + fst offset) else fst offset);
          y = (if bottom then containingHeight - (marginBoxHeight + snd offset) else snd offset)
      in (fst (GetPosition B (GetBox parent) CONTENT) + x + GetEdge B (GetBox node) MARGIN Edge_LEFT,
          snd (GetPosition B (GetBox parent) CONTENT) + y + GetEdge B (GetBox node) MARGIN Edge_TOP))"

section \<open>Ancestor chains\<close>

text \<open>
  \<open>ancestor_chain parent p as\<close>: following the parent links from the nullable pointer
  \<open>p\<close> visits exactly the elements \<open>as\<close> and then reaches \<open>nullptr\<close>. Such a list exists
  exactly when the chain is finite, hence acyclic.
\<close>

inductive ancestor_chain :: "(element_ptr \<Rightarrow> element_ptr option) \<Rightarrow> element_ptr option \<Rightarrow> element_ptr list \<Rightarrow> bool"
  for parent :: "element_ptr \<Rightarrow> element_ptr option" where
  chain_end: "ancestor_chain parent None []"
| chain_up: "ancestor_chain parent (parent a) as \<Longrightarrow> ancestor_chain parent (Some a) (a # as)"

text \<open>
  The value of \<open>num_ignored_clips\<close> after the loop of \<open>GetClippingRegion\<close> has visited
  the given ancestors, \<open>None\<close> when it has left the loop through \<open>break\<close>.
\<close>

fun pending_skip :: "int \<Rightarrow> ('f, 'box) Element list \<Rightarrow> int option" where
  "pending_skip num_ignored_clips [] = Some num_ignored_clips"
| "pending_skip num_ignored_clips (a # as) =
     (let num_ignored_clips' =
            (if 0 < num_ignored_clips
             then (if IsClippingEnabled a then num_ignored_clips - 1 else num_ignored_clips)
             else num_ignored_clips)
      in if GetClippingIgnoreDepth a < 0 then None
         else pending_skip (max num_ignored_clips' (GetClippingIgnoreDepth a)) as)"

section \<open>Finite trees of elements\<close>

text \<open>
  The shape of the subtree under an element, unfolded from the child lists of the
  document: \<open>tree_of children t\<close> holds when every node of \<open>t\<close> has exactly the children
  that the document gives it. Such a \<open>t\<close> exists exactly when the descendants of the root
  are finitely many. \<open>nodes_at k t\<close> lists the elements at depth \<open>k\<close> below the root of
  \<open>t\<close> from left to right, the root itself being at depth 0.
\<close>

datatype element_tree = Subtree (root: element_ptr) (subtrees: "element_tree list")

fun tree_of :: "(element_ptr \<Rightarrow> element_ptr list) \<Rightarrow> element_tree \<Rightarrow> bool" where
  "tree_of children (Subtree r ts) \<longleftrightarrow> children r = map root ts \<and> list_all (tree_of children) ts"

primrec nodes_at :: "nat \<Rightarrow> element_tree \<Rightarrow> element_ptr list" where
  "nodes_at 0 t = [root t]"
| "nodes_at (Suc k) t = concat (map (nodes_at k) (subtrees t))"

fun tree_height :: "element_tree \<Rightarrow> nat" where
  "tree_height (Subtree r ts) = Suc (fold max (map tree_height ts) 0)"

section \<open>Sample documents\<close>

text \<open>
  Concrete documents on which the theorems are instantiated. Floats are integers here,
  \<open>RealToInteger\<close> is the identity, and a box is its content size with one margin width
  for all four edges.
\<close>

record sample_box =
  box_content :: "int \<times> int"
  box_margin :: int

definition sample_box_api :: "(int, sample_box) BoxAPI" where
  "sample_box_api =
     \<lparr> GetSize = (\<lambda>b a. if a = MARGIN then (fst (box_content b) + 2 * box_margin b, snd (box_content b) + 2 * box_margin b)
                         else box_content b),
       GetPosition = (\<lambda>b a. if a = MARGIN then (0, 0) else (box_margin b, box_margin b)),
       GetEdge = (\<lambda>b a e. if a = MARGIN then box_margin b else 0),
       SetContent = (\<lambda>b c. b\<lparr>box_content := c\<rparr>) \<rparr>"

definition sample_element :: "(int, sample_box) Element" where
  "sample_element =
     \<lparr> GetTagName = ''div'', IsClassSet = (\<lambda>c. False), IsClippingEnabled = False,
       GetClippingIgnoreDepth = 0, GetClientWidth = 100, GetClientHeight = 100,
       GetScrollWidth = 100, GetScrollHeight = 100, GetAbsoluteOffset = (\<lambda>a. (0, 0)),
       GetBox = \<lparr> box_content = (100, 100), box_margin = 0 \<rparr>,
       GetScrollbarSize = (\<lambda>d. 0), height_type_is_Auto = True, relative_offset = (0, 0),
       offset_parent = None, GetRenderInterface = Some 0, GetContext = Some 0,
       GetTransformState = None \<rparr>"

definition scenario_A :: "(int, sample_box) Element" where
  "scenario_A = sample_element
     \<lparr> IsClippingEnabled := True, GetClientWidth := 80, GetClientHeight := 80,
       GetScrollWidth := 200, GetScrollHeight := 80,
       GetAbsoluteOffset := (\<lambda>a. (10, 10)),
       GetBox := \<lparr> box_content = (80, 80), box_margin = 0 \<rparr> \<rparr>"

text \<open>
  The scenario of the specification: root (0), its child A (1) and A's child B (2), where
  A clips, overflows and has the content rectangle with origin (10, 10) and size (80, 80).
  The ignore depth of B and a further element X (3) are parameters. In
  \<open>scenario_document\<close> X is detached; in \<open>scenario_inserted\<close> it stands between B and A.
\<close>

definition scenario_document :: "int \<Rightarrow> (int, sample_box) Element \<Rightarrow> (int, sample_box) Document" where
  "scenario_document depth_B X =
     \<lparr> GetParentNode = (\<lambda>e. if e = 2 then Some 1 else if e = 1 then Some 0 else None),
       GetChildren = (\<lambda>e. if e = 0 then [1] else if e = 1 then [2] else []),
       element = (\<lambda>e. if e = 1 then scenario_A
                       else if e = 2 then sample_element\<lparr>GetClippingIgnoreDepth := depth_B\<rparr>
                       else if e = 3 then X else sample_element) \<rparr>"

definition scenario_inserted :: "int \<Rightarrow> (int, sample_box) Element \<Rightarrow> (int, sample_box) Document" where
  "scenario_inserted depth_B X =
     (scenario_document depth_B X)
       \<lparr> GetParentNode := (\<lambda>e. if e = 2 then Some 3 else if e = 3 then Some 1
                                else if e = 1 then Some 0 else None),
         GetChildren := (\<lambda>e. if e = 0 then [1] else if e = 1 then [3] else if e = 3 then [2] else []) \<rparr>"

text \<open>
  The scenario with scrollbars on A: the vertical one is 10 wide, the horizontal one 6
  high.
\<close>

definition scrollbar_document :: "(int, sample_box) Document" where
  "scrollbar_document =
     (scenario_document 0 sample_element)
       \<lparr> element := (element (scenario_document 0 sample_element))
            (1 := scenario_A\<lparr>GetScrollbarSize := (\<lambda>d. if d = VERTICAL then 10 else 6)\<rparr>) \<rparr>"

text \<open>
  A context that caches the origin and the dimensions it was given and reports the region
  as active when both dimensions are non-negative; a renderer state with no active region,
  an empty transform cache and no calls so far.
\<close>

definition sample_context_api :: "(Vector2i \<times> Vector2i) ContextAPI" where
  "sample_context_api =
     \<lparr> GetActiveClipRegion = (\<lambda>ctx. if 0 \<le> fst (snd ctx) \<and> 0 \<le> snd (snd ctx) then Some ctx else None),
       SetActiveClipRegion = (\<lambda>ctx origin dimensions. (origin, dimensions)),
       Context_GetRenderInterface = (\<lambda>ctx. Some 0),
       Core_GetRenderInterface = None \<rparr>"

definition sample_state :: "(Vector2i \<times> Vector2i, int list) RenderState" where
  "sample_state =
     \<lparr> contexts = (\<lambda>c. ((-1, -1), (-1, -1))), previous_matrix = Map.empty,
       matrices = (\<lambda>p. []), render_calls = [] \<rparr>"

text \<open>
  A document for the searches: the root (0) has the children 1 and 2, and 1 has the child
  3. All elements have the tag \<open>div\<close>; the class \<open>hit\<close> is set on 2 and 3.
\<close>

definition search_document :: "(int, sample_box) Document" where
  "search_document =
     \<lparr> GetParentNode = (\<lambda>e. if e = 1 \<or> e = 2 then Some 0 else if e = 3 then Some 1 else None),
       GetChildren = (\<lambda>e. if e = 0 then [1, 2] else if e = 1 then [3] else []),
       element = (\<lambda>e. if e = 2 \<or> e = 3 then sample_element\<lparr>IsClassSet := (\<lambda>c. c = ''hit'')\<rparr>
                       else sample_element) \<rparr>"

section \<open>Properties of the clipping region\<close>

subsection \<open>The loop on a finite ancestor chain\<close>

lemma merge_clip_region_spec:
  "merge_clip_region clip rect =
     (if clip = spec_unset then rect else spec_intersect clip rect)"
  by (cases clip; cases rect) (auto simp: merge_clip_region_def spec_unset_def spec_intersect_def Let_def)

lemma GetClippingRegion_loop_chain:
  "ancestor_chain (GetParentNode D) c as \<Longrightarrow>
   GetClippingRegion_loop rnd B D clip n c = Some (spec_walk rnd B (clip, n) (map (element D) as))"
proof (induction as arbitrary: clip n c)
  case Nil
  then have "c = None" by (auto elim: ancestor_chain.cases)
  then show ?case by (simp add: GetClippingRegion_loop.simps)
next
  case (Cons a as)
  from Cons.prems have c: "c = Some a" and rest: "ancestor_chain (GetParentNode D) (GetParentNode D a) as"
    by (auto elim: ancestor_chain.cases)
  show ?case
    unfolding c
    apply (subst GetClippingRegion_loop.simps)
    apply (simp add: Let_def Cons.IH[OF rest] merge_clip_region_spec spec_overflows_def spec_content_rect_def)
    done
qed


lemma GetClippingRegion_returns:
  assumes "ancestor_chain (GetParentNode D) (GetParentNode D e) as"
  shows "GetClippingRegion RealToInteger B D e \<noteq> None"
proof (cases "GetClippingIgnoreDepth (element D e) < 0")
  case True
  then show ?thesis by (simp add: GetClippingRegion_def Let_def)
next
  case False
  then show ?thesis
    by (simp add: GetClippingRegion_def Let_def GetClippingRegion_loop_chain[OF assms] split: prod.splits)
qed

lemma scenario_chain:
  "ancestor_chain (GetParentNode (scenario_document d X)) (GetParentNode (scenario_document d X) 2) [1, 0]"
proof -
  have "ancestor_chain (GetParentNode (scenario_document d X)) (Some 1) [1, 0]"
    by (rule chain_up, simp add: scenario_document_def, rule chain_up,
        simp add: scenario_document_def, rule chain_end)
  then show ?thesis by (simp add: scenario_document_def)
qed

lemma scenario_inserted_chain:
  "ancestor_chain (GetParentNode (scenario_inserted d X)) (GetParentNode (scenario_inserted d X) 2) [3, 1, 0]"
proof -
  have "ancestor_chain (GetParentNode (scenario_inserted d X)) (Some 3) [3, 1, 0]"
    by (rule chain_up, simp add: scenario_inserted_def, rule chain_up,
        simp add: scenario_inserted_def, rule chain_up, simp add: scenario_inserted_def, rule chain_end)
  then show ?thesis by (simp add: scenario_inserted_def)
qed

lemmas scenario_simps =
  scenario_document_def scenario_inserted_def scenario_A_def sample_element_def sample_box_api_def

lemma scenario_clip:
  "GetClippingRegion (\<lambda>v. v) sample_box_api (scenario_document 0 X) 2 = Some (True, (10, 10), (80, 80))"
  by (simp add: GetClippingRegion_def GetClippingRegion_loop.simps scenario_simps
      merge_clip_region_def)

subsection \<open>Refinement of the specification's state machine\<close>

text \<open>
  Claim C1. For every node whose ancestor chain is finite, \<open>GetClippingRegion\<close> returns,
  and its result (flag, origin, dimensions) is the one the state machine of the
  specification computes from the node's ignore depth and its ancestors in order.
\<close>

theorem GetClippingRegion_refines_spec:
  assumes "ancestor_chain (GetParentNode D) (GetParentNode D e) as"
  shows "GetClippingRegion rnd B D e =
         Some (spec_resolve rnd B (GetClippingIgnoreDepth (element D e)) (map (element D) as))"
  using GetClippingRegion_loop_chain[OF assms, of rnd B]
  by (auto simp: GetClippingRegion_def spec_resolve_def Let_def spec_unset_def split: prod.splits)

theorem GetClippingRegion_refines_spec_witness:
  "ancestor_chain (GetParentNode (scenario_document 0 sample_element))
     (GetParentNode (scenario_document 0 sample_element) 2) [1, 0] \<and>
   GetClippingRegion (\<lambda>v. v) sample_box_api (scenario_document 0 sample_element) 2 =
     Some (True, (10, 10), (80, 80))"
proof -
  have chain: "ancestor_chain (GetParentNode (scenario_document 0 sample_element))
                 (GetParentNode (scenario_document 0 sample_element) 2) [1, 0]"
    by (rule scenario_chain)
  have "spec_resolve (\<lambda>v. v) sample_box_api
          (GetClippingIgnoreDepth (element (scenario_document 0 sample_element) 2))
          (map (element (scenario_document 0 sample_element)) [1, 0]) = (True, (10, 10), (80, 80))"
    by (simp add: spec_resolve_def spec_overflows_def spec_content_rect_def spec_unset_def
        scenario_simps)
  with GetClippingRegion_refines_spec[OF chain, of "\<lambda>v. v" sample_box_api] chain
  show ?thesis by (simp only: simp_thms)
qed

subsection \<open>The result flag\<close>

text \<open>
  Claim C9. On a finite ancestor chain \<open>GetClippingRegion\<close> returns. Whenever it
  returns, its flag is true exactly when the region it produced is not the unset one and
  has non-negative dimensions; a true flag comes with two non-negative dimensions; and a
  region with non-negative dimensions, one of them zero, is reported as active. The
  intersection step itself never leaves a negative dimension.
\<close>

theorem GetClippingRegion_active_iff:
  "(ancestor_chain (GetParentNode D) (GetParentNode D e) as \<longrightarrow>
      GetClippingRegion RealToInteger B D e \<noteq> None) \<and>
   (GetClippingRegion RealToInteger B D e = Some (active, clip_origin, clip_dimensions) \<longrightarrow>
      (active \<longleftrightarrow> (clip_origin, clip_dimensions) \<noteq> ((-1, -1), (-1, -1)) \<and>
                  0 \<le> fst clip_dimensions \<and> 0 \<le> snd clip_dimensions) \<and>
      (active \<longrightarrow> 0 \<le> fst clip_dimensions \<and> 0 \<le> snd clip_dimensions) \<and>
      (0 \<le> fst clip_dimensions \<and> 0 \<le> snd clip_dimensions \<and>
         (fst clip_dimensions = 0 \<or> snd clip_dimensions = 0) \<longrightarrow> active)) \<and>
   (clip \<noteq> ((-1, -1), (-1, -1)) \<longrightarrow>
      0 \<le> fst (snd (merge_clip_region clip rect)) \<and> 0 \<le> snd (snd (merge_clip_region clip rect)))"
proof (intro conjI impI)
  assume "ancestor_chain (GetParentNode D) (GetParentNode D e) as"
  then show "GetClippingRegion RealToInteger B D e \<noteq> None"
    by (rule GetClippingRegion_returns)
next
  assume r: "GetClippingRegion RealToInteger B D e = Some (active, clip_origin, clip_dimensions)"
  then have flag: "active \<longleftrightarrow> 0 \<le> fst clip_dimensions \<and> 0 \<le> snd clip_dimensions"
    by (auto simp: GetClippingRegion_def Let_def split: if_splits option.splits)
  show "active \<longleftrightarrow> (clip_origin, clip_dimensions) \<noteq> ((-1, -1), (-1, -1)) \<and>
                  0 \<le> fst clip_dimensions \<and> 0 \<le> snd clip_dimensions"
    using flag by auto
  show "0 \<le> fst clip_dimensions" if active using that flag by simp
  show "0 \<le> snd clip_dimensions" if active using that flag by simp
  show active if "0 \<le> fst clip_dimensions \<and> 0 \<le> snd clip_dimensions \<and>
         (fst clip_dimensions = 0 \<or> snd clip_dimensions = 0)"
    using that flag by simp
next
  assume "clip \<noteq> ((-1, -1), (-1, -1))"
  then show "0 \<le> fst (snd (merge_clip_region clip rect))" "0 \<le> snd (snd (merge_clip_region clip rect))"
    by (cases clip; auto simp: merge_clip_region_def Let_def)+
qed

text \<open>
  On the sample document with a second clipping ancestor X between B and A, whose content
  rectangle at (200, 200) does not meet A's: the region collapses to size zero and is
  reported as active.
\<close>

lemma scenario_collapsed_clip:
  "GetClippingRegion (\<lambda>v. v) sample_box_api
     (scenario_inserted 0 (scenario_A\<lparr>GetAbsoluteOffset := (\<lambda>a. (200, 200))\<rparr>)) 2 =
   Some (True, (200, 200), (0, 0))"
  by (simp add: GetClippingRegion_def GetClippingRegion_loop.simps scenario_simps
      merge_clip_region_def)

theorem GetClippingRegion_active_iff_witness:
  "ancestor_chain (GetParentNode (scenario_inserted 0 (scenario_A\<lparr>GetAbsoluteOffset := (\<lambda>a. (200, 200))\<rparr>)))
     (GetParentNode (scenario_inserted 0 (scenario_A\<lparr>GetAbsoluteOffset := (\<lambda>a. (200, 200))\<rparr>)) 2) [3, 1, 0] \<and>
   GetClippingRegion (\<lambda>v. v) sample_box_api
     (scenario_inserted 0 (scenario_A\<lparr>GetAbsoluteOffset := (\<lambda>a. (200, 200))\<rparr>)) 2 =
     Some (True, (200, 200), (0, 0)) \<and>
   (((200, 200), (0, 0)) :: Vector2i \<times> Vector2i) \<noteq> ((-1, -1), (-1, -1)) \<and>
   0 \<le> fst ((0, 0) :: Vector2i) \<and> 0 \<le> snd ((0, 0) :: Vector2i) \<and>
   (((200, 200), (80, 80)) :: Vector2i \<times> Vector2i) \<noteq> ((-1, -1), (-1, -1)) \<and>
   0 \<le> fst (snd (merge_clip_region ((200, 200), (80, 80)) ((10, 10), (80, 80)))) \<and>
   0 \<le> snd (snd (merge_clip_region ((200, 200), (80, 80)) ((10, 10), (80, 80))))"
proof -
  let ?D = "scenario_inserted 0 (scenario_A\<lparr>GetAbsoluteOffset := (\<lambda>a. (200, 200))\<rparr>)"
  have ne: "(((200, 200), (80, 80)) :: Vector2i \<times> Vector2i) \<noteq> ((-1, -1), (-1, -1))"
    by simp
  from GetClippingRegion_active_iff[of ?D 2 "[3, 1, 0]" "\<lambda>v. v" sample_box_api True "(200, 200)" "(0, 0)"
      "((200, 200), (80, 80))" "((10, 10), (80, 80))"]
    scenario_inserted_chain[of 0 "scenario_A\<lparr>GetAbsoluteOffset := (\<lambda>a. (200, 200))\<rparr>"]
    scenario_collapsed_clip ne
  show ?thesis by (simp only: simp_thms)
qed

subsection \<open>Order of the contributing rectangles\<close>

lemma axis_commute:
  fixes p d p1 d1 p2 d2 :: int
  shows "max 0 (min (max p p1 + max 0 (min (p + d) (p1 + d1) - max p p1)) (p2 + d2) - max (max p p1) p2) =
         max 0 (min (max p p2 + max 0 (min (p + d) (p2 + d2) - max p p2)) (p1 + d1) - max (max p p2) p1)"
proof -
  have closed: "max 0 (min (max a a1 + max 0 (min b b1 - max a a1)) b2 - max (max a a1) a2) =
                max 0 (min (min b b1) b2 - max (max a a1) a2)" for a a1 a2 b b1 b2 :: int
    by (simp add: max_def min_def)
  show ?thesis
    by (simp only: closed) (simp add: max.assoc max.commute min.assoc min.commute max.left_commute min.left_commute)
qed

lemma merge_clip_region_adopt:
  "merge_clip_region ((-1, -1), (-1, -1)) rect = rect"
  by (simp add: merge_clip_region_def)

lemma merge_clip_region_intersect:
  assumes "((cx, cy), (cw, ch)) \<noteq> ((-1, -1), (-1, -1))"
  shows "merge_clip_region ((cx, cy), (cw, ch)) ((ex, ey), (ew, eh)) =
           ((max cx ex, max cy ey),
            (max 0 (min (cx + cw) (ex + ew) - max cx ex), max 0 (min (cy + ch) (ey + eh) - max cy ey)))"
  using assms by (auto simp: merge_clip_region_def Let_def)

lemma merge_clip_region_commute:
  assumes "x \<noteq> ((-1, -1), (-1, -1))" and "y \<noteq> ((-1, -1), (-1, -1))"
  shows "merge_clip_region (merge_clip_region s y) x = merge_clip_region (merge_clip_region s x) y"
proof -
  obtain sx sy sw sh where s: "s = ((sx, sy), (sw, sh))" by (metis surj_pair)
  obtain xx xy xw xh where x: "x = ((xx, xy), (xw, xh))" by (metis surj_pair)
  obtain yx yy yw yh where y: "y = ((yx, yy), (yw, yh))" by (metis surj_pair)
  show ?thesis
  proof (cases "s = ((-1, -1), (-1, -1))")
    case True
    have "merge_clip_region y x = merge_clip_region x y"
      using assms unfolding x y
      by (simp add: merge_clip_region_intersect max.commute min.commute del: prod.inject)
    then show ?thesis by (simp add: True merge_clip_region_adopt)
  next
    case False
    then have ns: "((sx, sy), (sw, sh)) \<noteq> ((-1, -1), (-1, -1))" by (simp add: s)
    have nonneg: "((a, b), (max 0 c, max 0 d)) \<noteq> ((-1, -1), (-1, -1))" for a b c d :: int
      by simp
    show ?thesis
      unfolding s x y
      apply (simp only: merge_clip_region_intersect[OF ns] merge_clip_region_intersect[OF nonneg])
      apply (simp only: prod.inject)
      apply (intro conjI)
         apply (simp add: max.assoc max.left_commute max.commute)
        apply (simp add: max.assoc max.left_commute max.commute)
       apply (rule axis_commute)
      apply (rule axis_commute)
      done
  qed
qed

text \<open>
  The fold below is what the loop computes when every ancestor contributes its rectangle:
  all of them clip and overflow, and nothing is skipped.
\<close>

lemma GetClippingRegion_loop_fold:
  "ancestor_chain (GetParentNode D) c as \<Longrightarrow>
   \<forall>a \<in> set as. IsClippingEnabled (element D a) \<and> GetClippingIgnoreDepth (element D a) = 0 \<and>
             (GetClientWidth (element D a) < GetScrollWidth (element D a) \<or>
              GetClientHeight (element D a) < GetScrollHeight (element D a)) \<Longrightarrow>
   GetClippingRegion_loop RealToInteger B D clip 0 c =
         Some (fold (\<lambda>rect clip. merge_clip_region clip rect)
                 (map (\<lambda>a. ((RealToInteger (fst (GetAbsoluteOffset (element D a) CONTENT)),
                              RealToInteger (snd (GetAbsoluteOffset (element D a) CONTENT))),
                             (RealToInteger (fst (GetSize B (GetBox (element D a)) CONTENT)),
                              RealToInteger (snd (GetSize B (GetBox (element D a)) CONTENT))))) as)
                 clip)"
proof (induction as arbitrary: clip c)
  case Nil
  then have "c = None" by (auto elim: ancestor_chain.cases)
  then show ?case by (simp add: GetClippingRegion_loop.simps)
next
  case (Cons a as)
  from Cons.prems(1) have c: "c = Some a"
    and rest: "ancestor_chain (GetParentNode D) (GetParentNode D a) as"
    by (auto elim: ancestor_chain.cases)
  from Cons.prems(2) have a: "IsClippingEnabled (element D a)" "GetClippingIgnoreDepth (element D a) = 0"
      "GetClientWidth (element D a) < GetScrollWidth (element D a) \<or>
       GetClientHeight (element D a) < GetScrollHeight (element D a)"
    and others: "\<forall>a \<in> set as. IsClippingEnabled (element D a) \<and> GetClippingIgnoreDepth (element D a) = 0 \<and>
             (GetClientWidth (element D a) < GetScrollWidth (element D a) \<or>
              GetClientHeight (element D a) < GetScrollHeight (element D a))"
    by simp_all
  show ?case
    unfolding c
    by (subst GetClippingRegion_loop.simps) (simp add: Let_def a Cons.IH[OF rest others])
qed

lemma merge_clip_region_fold_permutation:
  assumes "mset rects = mset rects'" and "((-1, -1), (-1, -1)) \<notin> set rects"
  shows "fold (\<lambda>rect clip. merge_clip_region clip rect) rects s =
         fold (\<lambda>rect clip. merge_clip_region clip rect) rects' s"
proof -
  have "fold (\<lambda>rect clip. merge_clip_region clip rect) rects = fold (\<lambda>rect clip. merge_clip_region clip rect) rects'"
  proof (rule fold_multiset_equiv)
    fix x y assume "x \<in> set rects" "y \<in> set rects"
    then have "x \<noteq> ((-1, -1), (-1, -1))" "y \<noteq> ((-1, -1), (-1, -1))" using assms(2) by auto
    then show "(\<lambda>clip. merge_clip_region clip x) \<circ> (\<lambda>clip. merge_clip_region clip y) =
               (\<lambda>clip. merge_clip_region clip y) \<circ> (\<lambda>clip. merge_clip_region clip x)"
      by (auto simp: fun_eq_iff intro: merge_clip_region_commute)
  qed (rule assms(1))
  then show ?thesis by simp
qed

text \<open>
  Claim C3. A contributing ancestor rectangle is a content box: an origin and a width and
  a height that are not negative. Folding the adopt-or-intersect step of
  \<open>GetClippingRegion\<close> over such rectangles, from the unset region as the loop does or
  from any other region \<open>s\<close>, gives the same region for every permutation of the
  rectangles: the same origin and the same dimensions, hence the same flag, which is the
  test that both dimensions are non-negative. For two rectangles this is commutativity
  of the step, for more it is its associativity as well.
\<close>

theorem merge_clip_region_permutation:
  assumes "mset rects = mset rects'"
      and "\<forall>rect \<in> set rects. 0 \<le> fst (snd rect) \<and> 0 \<le> snd (snd rect)"
  shows "fold (\<lambda>rect clip. merge_clip_region clip rect) rects s =
           fold (\<lambda>rect clip. merge_clip_region clip rect) rects' s \<and>
         (0 \<le> fst (snd (fold (\<lambda>rect clip. merge_clip_region clip rect) rects s)) \<and>
          0 \<le> snd (snd (fold (\<lambda>rect clip. merge_clip_region clip rect) rects s)) \<longleftrightarrow>
          0 \<le> fst (snd (fold (\<lambda>rect clip. merge_clip_region clip rect) rects' s)) \<and>
          0 \<le> snd (snd (fold (\<lambda>rect clip. merge_clip_region clip rect) rects' s)))"
proof -
  have "((-1, -1), (-1, -1)) \<notin> set rects"
  proof
    assume "((-1, -1), (-1, -1)) \<in> set rects"
    with assms(2) show False by force
  qed
  from merge_clip_region_fold_permutation[OF assms(1) this]
  show ?thesis by simp
qed

theorem merge_clip_region_permutation_witness:
  "mset [((0, 0), (50, 50)), ((10, 10), (80, 80)), ((200, 5), (0, 30)) :: Vector2i \<times> Vector2i] =
     mset [((200, 5), (0, 30)), ((10, 10), (80, 80)), ((0, 0), (50, 50))] \<and>
   fold (\<lambda>rect clip. merge_clip_region clip rect)
     [((0, 0), (50, 50)), ((10, 10), (80, 80)), ((200, 5), (0, 30))] ((-1, -1), (-1, -1)) =
     ((200, 10), (0, 25)) \<and>
   fold (\<lambda>rect clip. merge_clip_region clip rect)
     [((200, 5), (0, 30)), ((10, 10), (80, 80)), ((0, 0), (50, 50))] ((-1, -1), (-1, -1)) =
     ((200, 10), (0, 25))"
proof -
  have m: "mset [((0, 0), (50, 50)), ((10, 10), (80, 80)), ((200, 5), (0, 30)) :: Vector2i \<times> Vector2i] =
           mset [((200, 5), (0, 30)), ((10, 10), (80, 80)), ((0, 0), (50, 50))]"
    by simp
  have n: "\<forall>rect \<in> set [((0, 0), (50, 50)), ((10, 10), (80, 80)), ((200, 5), (0, 30)) :: Vector2i \<times> Vector2i].
             0 \<le> fst (snd rect) \<and> 0 \<le> snd (snd rect)"
    by simp
  have v: "fold (\<lambda>rect clip. merge_clip_region clip rect)
             [((0, 0), (50, 50)), ((10, 10), (80, 80)), ((200, 5), (0, 30))] ((-1, -1), (-1, -1)) =
           ((200, 10), (0, 25))"
    by (simp add: merge_clip_region_def Let_def)
  from merge_clip_region_permutation[OF m n, of "((-1, -1), (-1, -1))"] m v
  show ?thesis by (simp only: simp_thms)
qed

subsection \<open>Ancestors that contribute no rectangle\<close>

lemma spec_walk_insert:
  assumes "\<not> IsClippingEnabled X \<or> \<not> (GetClientWidth X < GetScrollWidth X \<or> GetClientHeight X < GetScrollHeight X)"
      and "\<forall>m. pending_skip n lower = Some m \<longrightarrow>
             0 \<le> GetClippingIgnoreDepth X \<and> GetClippingIgnoreDepth X \<le> m \<and> (IsClippingEnabled X \<longrightarrow> m = 0)"
  shows "spec_walk rnd B (clip, n) (lower @ X # upper) = spec_walk rnd B (clip, n) (lower @ upper)"
  using assms(2)
proof (induction lower arbitrary: clip n)
  case Nil
  then have "0 \<le> GetClippingIgnoreDepth X" "GetClippingIgnoreDepth X \<le> n" "IsClippingEnabled X \<longrightarrow> n = 0"
    by simp_all
  with assms(1) show ?case
    by (auto simp: spec_overflows_def Let_def max_def)
next
  case (Cons a lower)
  show ?case
  proof (cases "GetClippingIgnoreDepth a < 0")
    case True
    then show ?thesis by (simp add: Let_def)
  next
    case False
    let ?n' = "max (if 0 < n \<and> IsClippingEnabled a then n - 1 else n) (GetClippingIgnoreDepth a)"
    have "pending_skip n (a # lower) = pending_skip ?n' lower"
      using False by (simp add: Let_def)
    with Cons.prems have "\<forall>m. pending_skip ?n' lower = Some m \<longrightarrow>
             0 \<le> GetClippingIgnoreDepth X \<and> GetClippingIgnoreDepth X \<le> m \<and> (IsClippingEnabled X \<longrightarrow> m = 0)"
      by simp
    from Cons.IH[OF this] show ?thesis
      using False by (simp add: Let_def)
  qed
qed


text \<open>
  Claim C2, as amended. Let a node have a non-negative ignore depth, and let two
  documents with the same elements differ in that the second has one more ancestor X in
  the node's chain. If X is not clip-enabled or not overflowing, and moreover, in case
  the loop reaches X with \<open>m\<close> clips still to ignore, the ignore depth of X lies between
  0 and \<open>m\<close>, and \<open>m = 0\<close> if X is clip-enabled, then \<open>GetClippingRegion\<close> returns in
  both documents, with the same flag, origin and dimensions.
\<close>

theorem GetClippingRegion_inert_ancestor:
  assumes "ancestor_chain (GetParentNode D) (GetParentNode D e) (lower @ upper)"
      and "ancestor_chain (GetParentNode D') (GetParentNode D' e) (lower @ x # upper)"
      and "element D' = element D"
      and "0 \<le> GetClippingIgnoreDepth (element D e)"
      and "\<not> IsClippingEnabled (element D x) \<or>
           \<not> (GetClientWidth (element D x) < GetScrollWidth (element D x) \<or>
              GetClientHeight (element D x) < GetScrollHeight (element D x))"
      and "\<forall>m. pending_skip (GetClippingIgnoreDepth (element D e)) (map (element D) lower) = Some m \<longrightarrow>
             0 \<le> GetClippingIgnoreDepth (element D x) \<and> GetClippingIgnoreDepth (element D x) \<le> m \<and>
             (IsClippingEnabled (element D x) \<longrightarrow> m = 0)"
  shows "GetClippingRegion RealToInteger B D' e = GetClippingRegion RealToInteger B D e \<and>
         GetClippingRegion RealToInteger B D e \<noteq> None"
proof -
  let ?n = "GetClippingIgnoreDepth (element D e)"
  let ?s = "((-1, -1), (-1, -1)) :: Vector2i \<times> Vector2i"
  have "GetClippingRegion_loop RealToInteger B D' ?s ?n (GetParentNode D' e) =
        Some (spec_walk RealToInteger B (?s, ?n) (map (element D) lower @ element D x # map (element D) upper))"
    using GetClippingRegion_loop_chain[OF assms(2)] by (simp add: assms(3))
  also have "\<dots> = Some (spec_walk RealToInteger B (?s, ?n) (map (element D) lower @ map (element D) upper))"
    by (simp only: spec_walk_insert[OF assms(5) assms(6)])
  also have "\<dots> = GetClippingRegion_loop RealToInteger B D ?s ?n (GetParentNode D e)"
    using GetClippingRegion_loop_chain[OF assms(1)] by simp
  finally have "GetClippingRegion RealToInteger B D' e = GetClippingRegion RealToInteger B D e"
    by (simp add: GetClippingRegion_def Let_def assms(3))
  moreover have "GetClippingRegion RealToInteger B D e \<noteq> None"
    using assms(1) by (rule GetClippingRegion_returns)
  ultimately show ?thesis by simp
qed


theorem GetClippingRegion_inert_ancestor_witness:
  "GetClippingRegion (\<lambda>v. v) sample_box_api (scenario_inserted 0 sample_element) 2 =
     Some (True, (10, 10), (80, 80)) \<and>
   GetClippingRegion (\<lambda>v. v) sample_box_api (scenario_document 0 sample_element) 2 =
     Some (True, (10, 10), (80, 80))"
proof -
  have "GetClippingRegion (\<lambda>v. v) sample_box_api (scenario_inserted 0 sample_element) 2 =
        GetClippingRegion (\<lambda>v. v) sample_box_api (scenario_document 0 sample_element) 2 \<and>
        GetClippingRegion (\<lambda>v. v) sample_box_api (scenario_document 0 sample_element) 2 \<noteq> None"
  proof (rule GetClippingRegion_inert_ancestor[where lower = "[]" and upper = "[1, 0]" and x = 3])
    show "ancestor_chain (GetParentNode (scenario_document 0 sample_element))
            (GetParentNode (scenario_document 0 sample_element) 2) ([] @ [1, 0])"
      using scenario_chain[of 0 sample_element] by simp
    show "ancestor_chain (GetParentNode (scenario_inserted 0 sample_element))
            (GetParentNode (scenario_inserted 0 sample_element) 2) ([] @ 3 # [1, 0])"
      using scenario_inserted_chain[of 0 sample_element] by simp
  qed (simp_all add: scenario_simps)
  with scenario_clip[of sample_element] show ?thesis by simp
qed

text \<open>
  Without the two extra conditions the claim fails. A clip-enabled ancestor that does not
  overflow still consumes one pending skip: with B ignoring one clip, A's clip is skipped
  in the scenario but applies once such an X stands between B and A. And an ancestor that
  does not clip but has a negative ignore depth ends the walk: with it between B and A,
  A's clip is lost.
\<close>

theorem GetClippingRegion_inert_ancestor_counterexample:
  "ancestor_chain (GetParentNode (scenario_document 1 (sample_element\<lparr>IsClippingEnabled := True\<rparr>)))
     (GetParentNode (scenario_document 1 (sample_element\<lparr>IsClippingEnabled := True\<rparr>)) 2) [1, 0] \<and>
   ancestor_chain (GetParentNode (scenario_inserted 1 (sample_element\<lparr>IsClippingEnabled := True\<rparr>)))
     (GetParentNode (scenario_inserted 1 (sample_element\<lparr>IsClippingEnabled := True\<rparr>)) 2) [3, 1, 0] \<and>
   element (scenario_inserted 1 (sample_element\<lparr>IsClippingEnabled := True\<rparr>)) =
     element (scenario_document 1 (sample_element\<lparr>IsClippingEnabled := True\<rparr>)) \<and>
   \<not> (GetClientWidth (sample_element\<lparr>IsClippingEnabled := True\<rparr>) < GetScrollWidth (sample_element\<lparr>IsClippingEnabled := True\<rparr>) \<or>
      GetClientHeight (sample_element\<lparr>IsClippingEnabled := True\<rparr>) < GetScrollHeight (sample_element\<lparr>IsClippingEnabled := True\<rparr>)) \<and>
   GetClippingRegion (\<lambda>v. v) sample_box_api (scenario_document 1 (sample_element\<lparr>IsClippingEnabled := True\<rparr>)) 2 =
     Some (False, (-1, -1), (-1, -1)) \<and>
   GetClippingRegion (\<lambda>v. v) sample_box_api (scenario_inserted 1 (sample_element\<lparr>IsClippingEnabled := True\<rparr>)) 2 =
     Some (True, (10, 10), (80, 80)) \<and>
   \<not> IsClippingEnabled (sample_element\<lparr>GetClippingIgnoreDepth := -1\<rparr>) \<and>
   GetClippingRegion (\<lambda>v. v) sample_box_api (scenario_document 0 (sample_element\<lparr>GetClippingIgnoreDepth := -1\<rparr>)) 2 =
     Some (True, (10, 10), (80, 80)) \<and>
   GetClippingRegion (\<lambda>v. v) sample_box_api (scenario_inserted 0 (sample_element\<lparr>GetClippingIgnoreDepth := -1\<rparr>)) 2 =
     Some (False, (-1, -1), (-1, -1))"
  using scenario_chain[of 1 "sample_element\<lparr>IsClippingEnabled := True\<rparr>"]
    scenario_inserted_chain[of 1 "sample_element\<lparr>IsClippingEnabled := True\<rparr>"]
  by (simp add: GetClippingRegion_def GetClippingRegion_loop.simps scenario_simps
      merge_clip_region_def)

section \<open>Properties of the clipping region applier\<close>

text \<open>
  Claim C4. Let \<open>SetClippingRegion\<close> resolve a render interface \<open>ri\<close> and a context \<open>c\<close>,
  and let the desired clip state be \<open>(clip, clip_origin, clip_dimensions)\<close>: what
  \<open>GetClippingRegion\<close> returns for the element, or no clip for no element. The desired
  state equals the cached one when both are inactive, or both are active with the same
  origin and dimensions. Then the call succeeds; if the two states are equal, the whole
  state, the list of render calls included, is unchanged; if not, the cache of \<open>c\<close> is
  updated to the desired origin and dimensions and exactly these calls are appended, in
  this order: one \<open>EnableScissorRegion\<close> with the flag of the updated cache and, only for
  the flag true, one \<open>SetScissorRegion\<close> with the cached origin and dimensions.
\<close>

theorem SetClippingRegion_calls:
  assumes "(case elem of
              Some e \<Rightarrow> GetRenderInterface (element D e)
            | None \<Rightarrow>
                (case context of
                   Some c \<Rightarrow>
                     (case Context_GetRenderInterface C (contexts s c) of
                        Some ri \<Rightarrow> Some ri
                      | None \<Rightarrow> Core_GetRenderInterface C)
                 | None \<Rightarrow> None)) = Some ri"
      and "(case elem of
              Some e \<Rightarrow> (case context of None \<Rightarrow> GetContext (element D e) | Some c \<Rightarrow> Some c)
            | None \<Rightarrow> context) = Some c"
      and "(case elem of
              None \<Rightarrow> Some (False, (-1, -1), (-1, -1))
            | Some e \<Rightarrow> GetClippingRegion RealToInteger B D e) = Some (clip, clip_origin, clip_dimensions)"
  shows "SetClippingRegion RealToInteger B C D elem context s =
           Some (True,
             if (case GetActiveClipRegion C (contexts s c) of
                   None \<Rightarrow> \<not> clip
                 | Some (current_origin, current_dimensions) \<Rightarrow>
                     clip \<and> clip_origin = current_origin \<and> clip_dimensions = current_dimensions)
             then s
             else s\<lparr>contexts := (contexts s)(c := SetActiveClipRegion C (contexts s c) clip_origin clip_dimensions),
                    render_calls := render_calls s @
                      (case GetActiveClipRegion C (SetActiveClipRegion C (contexts s c) clip_origin clip_dimensions) of
                         None \<Rightarrow> [(ri, EnableScissorRegion False)]
                       | Some (origin, dimensions) \<Rightarrow>
                           [(ri, EnableScissorRegion True),
                            (ri, SetScissorRegion (fst origin) (snd origin) (fst dimensions) (snd dimensions))])\<rparr>)"
  using assms
  by (auto simp: SetClippingRegion_def ApplyActiveClipRegion_def Let_def split: option.splits)

theorem SetClippingRegion_calls_witness:
  "SetClippingRegion (\<lambda>v. v) sample_box_api sample_context_api (scenario_document 0 sample_element)
     (Some 2) None sample_state =
   Some (True, sample_state
     \<lparr>contexts := (contexts sample_state)(0 := ((10, 10), (80, 80))),
      render_calls := [(0, EnableScissorRegion True), (0, SetScissorRegion 10 10 80 80)]\<rparr>) \<and>
   SetClippingRegion (\<lambda>v. v) sample_box_api sample_context_api (scenario_document 0 sample_element)
     (Some 2) None
     (sample_state
       \<lparr>contexts := (contexts sample_state)(0 := ((10, 10), (80, 80))),
        render_calls := [(0, EnableScissorRegion True), (0, SetScissorRegion 10 10 80 80)]\<rparr>) =
   Some (True, sample_state
     \<lparr>contexts := (contexts sample_state)(0 := ((10, 10), (80, 80))),
      render_calls := [(0, EnableScissorRegion True), (0, SetScissorRegion 10 10 80 80)]\<rparr>)"
proof -
  let ?D = "scenario_document 0 sample_element"
  let ?s = "sample_state
       \<lparr>contexts := (contexts sample_state)(0 := ((10, 10), (80, 80))),
        render_calls := [(0, EnableScissorRegion True), (0, SetScissorRegion 10 10 80 80)]\<rparr>"
  have ri: "(case Some (2::nat) of
              Some e \<Rightarrow> GetRenderInterface (element ?D e)
            | None \<Rightarrow>
                (case None of
                   Some c \<Rightarrow>
                     (case Context_GetRenderInterface sample_context_api (contexts s c) of
                        Some ri \<Rightarrow> Some ri
                      | None \<Rightarrow> Core_GetRenderInterface sample_context_api)
                 | None \<Rightarrow> None)) = Some 0" for s :: "(Vector2i \<times> Vector2i, int list) RenderState"
    by (simp add: scenario_simps)
  have c: "(case Some (2::nat) of
              Some e \<Rightarrow> (case None of None \<Rightarrow> GetContext (element ?D e) | Some c \<Rightarrow> Some c)
            | None \<Rightarrow> None) = Some 0"
    by (simp add: scenario_simps)
  have clip: "(case Some (2::nat) of
              None \<Rightarrow> Some (False, (-1, -1), (-1, -1))
            | Some e \<Rightarrow> GetClippingRegion (\<lambda>v. v) sample_box_api ?D e) = Some (True, (10, 10), (80, 80))"
    by (simp add: scenario_clip)
  from SetClippingRegion_calls[OF ri c clip, of sample_state]
    SetClippingRegion_calls[OF ri c clip, of ?s]
  show ?thesis by (simp add: sample_context_api_def sample_state_def)
qed

section \<open>Properties of the transform applier\<close>

text \<open>
  Claim C5. For an element with a render interface \<open>ri\<close>, \<open>ApplyTransform\<close> succeeds,
  leaves the cache entry of \<open>ri\<close> at the element's current transform (the matrix of its
  transform state, or none), and appends exactly one \<open>SetTransform\<close> call with that
  transform when it differs from the cached one (none, for a render interface without
  an entry), and no call otherwise. A second call right after the first changes nothing.
\<close>

theorem ApplyTransform_submits_on_change:
  assumes "GetRenderInterface (element D e) = Some ri"
  shows "ApplyTransform D e s =
           (True, s\<lparr>previous_matrix := (previous_matrix s)
                       (ri \<mapsto> (case GetTransformState (element D e) of None \<Rightarrow> None | Some state \<Rightarrow> GetTransform state)),
                    render_calls := render_calls s @
                      (if (case previous_matrix s ri of None \<Rightarrow> None | Some old \<Rightarrow> old) =
                          (case GetTransformState (element D e) of None \<Rightarrow> None | Some state \<Rightarrow> GetTransform state)
                       then []
                       else [(ri, SetTransform (case GetTransformState (element D e) of None \<Rightarrow> None | Some state \<Rightarrow> GetTransform state))])\<rparr>) \<and>
         ApplyTransform D e (snd (ApplyTransform D e s)) = (True, snd (ApplyTransform D e s))"
proof -
  let ?new = "case GetTransformState (element D e) of None \<Rightarrow> None | Some state \<Rightarrow> GetTransform state"
  have first: "ApplyTransform D e s =
           (True, s\<lparr>previous_matrix := (previous_matrix s)(ri \<mapsto> ?new),
                    render_calls := render_calls s @
                      (if (case previous_matrix s ri of None \<Rightarrow> None | Some old \<Rightarrow> old) = ?new
                       then [] else [(ri, SetTransform ?new)])\<rparr>)" for s :: "('c, 'd) RenderState"
  proof (cases "previous_matrix s ri")
    case None
    then show ?thesis using assms by (simp add: ApplyTransform_def Let_def)
  next
    case (Some old)
    then have "(previous_matrix s)(ri \<mapsto> old) = previous_matrix s" by (simp add: fun_upd_idem)
    with Some show ?thesis using assms by (auto simp: ApplyTransform_def Let_def)
  qed
  show ?thesis
    apply (rule conjI)
     apply (rule first)
    apply (subst first)
    apply (subst first)
    apply (simp add: first)
    done
qed

theorem ApplyTransform_submits_on_change_witness:
  "ApplyTransform (scenario_document 0 (sample_element\<lparr>GetTransformState := Some (TransformState (Some 7))\<rparr>)) 3 sample_state =
     (True, sample_state\<lparr>previous_matrix := [0 \<mapsto> Some 7], render_calls := [(0, SetTransform (Some 7))]\<rparr>)"
proof -
  have ri: "GetRenderInterface (element (scenario_document 0 (sample_element\<lparr>GetTransformState := Some (TransformState (Some 7))\<rparr>)) 3) = Some 0"
    by (simp add: scenario_simps)
  from ApplyTransform_submits_on_change[OF ri, of sample_state]
  show ?thesis by (simp add: scenario_simps sample_state_def)
qed

text \<open>
  Claim C10. The comparison is one of pointers. If the cache of \<open>ri\<close> holds the pointer
  \<open>p\<close> and the element's transform state has the matrix \<open>p\<close>, no call is issued whatever
  value \<open>m\<close> the matrix at \<open>p\<close> now has. And for a render interface without a cache
  entry and an element without a transform, the call creates the entry \<open>nullptr\<close> and
  issues no call.
\<close>

theorem ApplyTransform_compares_pointers:
  assumes "GetRenderInterface (element D e) = Some ri"
  shows "(GetTransformState (element D e) = Some (TransformState (Some p)) \<and>
          previous_matrix s ri = Some (Some p) \<longrightarrow>
            ApplyTransform D e (s\<lparr>matrices := (matrices s)(p := m)\<rparr>) =
              (True, s\<lparr>matrices := (matrices s)(p := m)\<rparr>)) \<and>
         ((GetTransformState (element D e) = None \<or>
           GetTransformState (element D e) = Some (TransformState None)) \<and>
          previous_matrix s ri = None \<longrightarrow>
            ApplyTransform D e s = (True, s\<lparr>previous_matrix := (previous_matrix s)(ri \<mapsto> None)\<rparr>) \<and>
            render_calls (snd (ApplyTransform D e s)) = render_calls s)"
  using assms by (auto simp: ApplyTransform_def Let_def)

theorem ApplyTransform_compares_pointers_witness:
  "ApplyTransform (scenario_document 0 (sample_element\<lparr>GetTransformState := Some (TransformState (Some 7))\<rparr>)) 3
     (sample_state\<lparr>previous_matrix := [0 \<mapsto> Some 7], matrices := (\<lambda>p. [])(7 := [1, 2, 3])\<rparr>) =
     (True, sample_state\<lparr>previous_matrix := [0 \<mapsto> Some 7], matrices := (\<lambda>p. [])(7 := [1, 2, 3])\<rparr>) \<and>
   ApplyTransform (scenario_document 0 sample_element) 3 sample_state =
     (True, sample_state\<lparr>previous_matrix := [0 \<mapsto> None]\<rparr>)"
proof -
  let ?X = "sample_element\<lparr>GetTransformState := Some (TransformState (Some 7))\<rparr>"
  have ri: "GetRenderInterface (element (scenario_document 0 ?X) 3) = Some 0"
    by (simp add: scenario_simps)
  have ri': "GetRenderInterface (element (scenario_document 0 sample_element) 3) = Some 0"
    by (simp add: scenario_simps)
  from ApplyTransform_compares_pointers[OF ri, of 7 "sample_state\<lparr>previous_matrix := [0 \<mapsto> Some 7]\<rparr>" "[1, 2, 3]"]
    ApplyTransform_compares_pointers[OF ri', of 7 sample_state]
  show ?thesis by (simp add: scenario_simps sample_state_def)
qed

section \<open>Properties of positioning\<close>

text \<open>
  Claim C6, as amended. For an element with a parent, \<open>PositionElement\<close> succeeds and
  stores as the element's offset, relative to the parent, the sum of the origin of the
  parent's content box, the resolved offset and the element's own left (top) margin,
  added in this order. The resolved x is the x of the input offset, or with the flag
  \<open>RIGHT\<close> the full width of the parent's content box, with nothing taken off for a
  scrollbar, minus the sum of the width of the element's margin box and the x of the
  input offset; the resolved y is alike with \<open>BOTTOM\<close> and the heights. The boxes are
  those of the resulting document, where the element has its new box.
\<close>

theorem PositionElement_offset:
  assumes "GetParentNode D e = Some parent"
  shows "\<exists>D'. PositionElement B BuildBox RIGHT BOTTOM D e offset anchor = Some (True, D') \<and>
           offset_parent (element D' e) = Some parent \<and>
           fst (relative_offset (element D' e)) =
             fst (GetPosition B (GetBox (element D' parent)) CONTENT) +
             (if anchor AND RIGHT \<noteq> 0
              then fst (GetSize B (GetBox (element D' parent)) CONTENT) -
                   (fst (GetSize B (GetBox (element D' e)) MARGIN) + fst offset)
              else fst offset) +
             GetEdge B (GetBox (element D' e)) MARGIN Edge_LEFT \<and>
           snd (relative_offset (element D' e)) =
             snd (GetPosition B (GetBox (element D' parent)) CONTENT) +
             (if anchor AND BOTTOM \<noteq> 0
              then snd (GetSize B (GetBox (element D' parent)) CONTENT) -
                   (snd (GetSize B (GetBox (element D' e)) MARGIN) + snd offset)
              else snd offset) +
             GetEdge B (GetBox (element D' e)) MARGIN Edge_TOP"
  using assms
  by (auto simp: PositionElement_def SetBox_def SetElementOffset_def Let_def)

theorem PositionElement_offset_witness:
  "GetParentNode (scenario_document 0 sample_element) 2 = Some 1 \<and>
   (\<exists>D'. PositionElement sample_box_api (\<lambda>cb D e. \<lparr>box_content = (fst cb, 10), box_margin = 2\<rparr>) 8 2
            (scenario_document 0 sample_element) 2 (5, 7) 8 = Some (True, D') \<and>
         offset_parent (element D' 2) = Some 1 \<and>
         fst (relative_offset (element D' 2)) =
           fst (GetPosition sample_box_api (GetBox (element D' 1)) CONTENT) +
           (fst (GetSize sample_box_api (GetBox (element D' 1)) CONTENT) -
            (fst (GetSize sample_box_api (GetBox (element D' 2)) MARGIN) + 5)) +
           GetEdge sample_box_api (GetBox (element D' 2)) MARGIN Edge_LEFT \<and>
         snd (relative_offset (element D' 2)) =
           snd (GetPosition sample_box_api (GetBox (element D' 1)) CONTENT) + 7 +
           GetEdge sample_box_api (GetBox (element D' 2)) MARGIN Edge_TOP)"
proof -
  have p: "GetParentNode (scenario_document 0 sample_element) 2 = Some 1"
    by (simp add: scenario_document_def)
  have flags: "(8::int) AND 8 \<noteq> 0" "\<not> (8::int) AND 2 \<noteq> 0"
    by simp_all
  from PositionElement_offset[OF p, of sample_box_api
      "\<lambda>cb D e. \<lparr>box_content = (fst cb, 10), box_margin = 2\<rparr>" 8 2 "(5, 7)" 8]
  show ?thesis
    by (simp only: p flags if_True if_False fst_conv snd_conv simp_thms)
qed

text \<open>
  On the sample document, with B positioned 5 from the right edge of A: the margin box of B
  is 84 wide, so the resolved x is 80 - (84 + 5), and the stored offset is (-7, 9).
\<close>

lemma PositionElement_sample:
  "map_option (\<lambda>r. (fst r, relative_offset (element (snd r) 2)))
     (PositionElement sample_box_api (\<lambda>cb D e. \<lparr>box_content = (fst cb, 10), box_margin = 2\<rparr>) 8 2
        (scenario_document 0 sample_element) 2 (5, 7) 8) = Some (True, (-7, 9))"
  by (simp add: PositionElement_def SetBox_def SetElementOffset_def Let_def scenario_simps)

text \<open>
  With \<open>containingWidth\<close> and \<open>containingHeight\<close> read as the extents of the
  specification's containing block, the claim fails where the parent has a scrollbar. On
  \<open>scrollbar_document\<close>, B anchored right and bottom with the offset (5, 7) has its box
  built against the containing block (70, 74), so it is 70 wide and its margin box is
  (74, 14); the code then anchors it in the full content box (80, 80) of A, as the
  comment of \<open>PositionElement\<close> says (offset from the borders of the parent's content
  area), and stores (3, 61), where the containing block would give (-7, 55).
\<close>

theorem PositionElement_offset_counterexample:
  "(10::int) AND 8 \<noteq> 0 \<and> (10::int) AND 2 \<noteq> 0 \<and>
   GetParentNode scrollbar_document 2 = Some 1 \<and>
   PositionElement sample_box_api (\<lambda>cb D e. \<lparr>box_content = (fst cb, 10), box_margin = 2\<rparr>) 8 2
     scrollbar_document 2 (5, 7) 10 =
     Some (True, scrollbar_document
       \<lparr> element := (element scrollbar_document)
            (2 := sample_element
               \<lparr> GetBox := \<lparr>box_content = (70, 10), box_margin = 2\<rparr>,
                 relative_offset := (3, 61), offset_parent := Some 1 \<rparr>) \<rparr>) \<and>
   spec_containing_block sample_box_api (element scrollbar_document 1) = (70, 74) \<and>
   spec_offset sample_box_api (element scrollbar_document 1)
     (sample_element
        \<lparr> GetBox := \<lparr>box_content = (70, 10), box_margin = 2\<rparr>,
          relative_offset := (3, 61), offset_parent := Some 1 \<rparr>) (5, 7) True True = (-7, 55)"
  by (simp add: PositionElement_def SetBox_def SetElementOffset_def Let_def scrollbar_document_def
      scenario_simps spec_offset_def spec_containing_block_def)

text \<open>
  Claim C7. \<open>PositionElement\<close> always returns; it reports failure exactly when the
  element has no parent, and then the document (the element's box and offset with it) is
  unchanged. With a parent it reports success.
\<close>

theorem PositionElement_fails_iff_no_parent:
  "\<exists>ok D'. PositionElement B BuildBox RIGHT BOTTOM D e offset anchor = Some (ok, D') \<and>
     (\<not> ok \<longleftrightarrow> GetParentNode D e = None) \<and> (\<not> ok \<longrightarrow> D' = D)"
  by (auto simp: PositionElement_def SetBox_def SetElementOffset_def Let_def split: option.splits)

theorem PositionElement_fails_iff_no_parent_witness:
  "PositionElement sample_box_api (\<lambda>cb D e. \<lparr>box_content = (fst cb, 10), box_margin = 2\<rparr>) 8 2
     (scenario_document 0 sample_element) 0 (5, 7) 8 = Some (False, scenario_document 0 sample_element)"
proof -
  have p: "GetParentNode (scenario_document 0 sample_element) 0 = None"
    by (simp add: scenario_document_def)
  from PositionElement_fails_iff_no_parent[of sample_box_api
      "\<lambda>cb D e. \<lparr>box_content = (fst cb, 10), box_margin = 2\<rparr>" 8 2
      "scenario_document 0 sample_element" 0 "(5, 7)" 8]
  show ?thesis by (auto simp: p)
qed

section \<open>Properties of the searches\<close>

lemma fold_max_ge: "(x::nat) \<in> set xs \<Longrightarrow> x \<le> fold max xs a"
proof (induction xs arbitrary: a)
  case Nil then show ?case by simp
next
  case (Cons y ys)
  have mono: "a \<le> fold max ys a" for a :: nat
    by (induction ys arbitrary: a) (auto intro: order_trans[OF max.cobounded2])
  from Cons show ?case
    by (auto intro: order_trans[OF max.cobounded1 mono])
qed

lemma subtree_height: "t' \<in> set (subtrees t) \<Longrightarrow> tree_height t' < tree_height t"
  by (cases t) (auto simp: less_Suc_eq_le intro!: fold_max_ge)

lemma tree_of_subtrees: "tree_of children t \<Longrightarrow> t' \<in> set (subtrees t) \<Longrightarrow> tree_of children t'"
  by (cases t) (simp add: list_all_iff)

lemma tree_of_children: "tree_of children t \<Longrightarrow> children (root t) = map root (subtrees t)"
  by (cases t) simp

lemma tag_loop_level:
  assumes "list_all (tree_of (GetChildren D)) ts"
  shows "GetElementsByTagName_loop D tag (map root ts @ queue) elements =
         GetElementsByTagName_loop D tag (queue @ map root (concat (map subtrees ts)))
           (elements @ filter (\<lambda>e. GetTagName (element D e) = tag) (map root ts))"
  using assms
proof (induction ts arbitrary: queue elements)
  case Nil
  then show ?case by simp
next
  case (Cons t ts)
  then have t: "GetChildren D (root t) = map root (subtrees t)"
    and ts: "list_all (tree_of (GetChildren D)) ts"
    by (simp_all add: tree_of_children)
  show ?case
    apply (simp only: list.map append_Cons)
    apply (subst GetElementsByTagName_loop.simps)
    apply (simp only: list.case t)
    apply (simp add: Cons.IH[OF ts, of "queue @ map root (subtrees t)"])
    done
qed

lemma tag_loop_forest:
  assumes "list_all (tree_of (GetChildren D)) ts" and "\<forall>t \<in> set ts. tree_height t \<le> h"
  shows "GetElementsByTagName_loop D tag (map root ts) elements =
         Some (elements @ concat (map (\<lambda>k. filter (\<lambda>e. GetTagName (element D e) = tag)
                                          (concat (map (nodes_at k) ts))) [0..<h]))"
  using assms
proof (induction h arbitrary: ts elements)
  case 0
  have "ts = []"
  proof (cases ts)
    case (Cons t ts')
    with 0 have "tree_height t \<le> 0" by simp
    then show ?thesis by (cases t) simp
  qed simp
  then show ?case by (simp add: GetElementsByTagName_loop.simps)
next
  case (Suc h)
  let ?cs = "concat (map subtrees ts)"
  have wf: "list_all (tree_of (GetChildren D)) ?cs"
    using Suc.prems(1) by (auto simp: list_all_iff intro: tree_of_subtrees)
  have ht: "\<forall>t \<in> set ?cs. tree_height t \<le> h"
    using Suc.prems(2) by (fastforce dest: subtree_height)
  have lev: "concat (map (nodes_at k) ?cs) = concat (map (nodes_at (Suc k)) ts)" for k
    by (induction ts) simp_all
  have lev0: "concat (map (nodes_at 0) ts) = map root ts"
    by (induction ts) simp_all
  have split: "[0..<Suc h] = 0 # map Suc [0..<h]"
    by (simp add: upt_conv_Cons map_Suc_upt del: upt_Suc)
  have "GetElementsByTagName_loop D tag (map root ts) elements =
        GetElementsByTagName_loop D tag (map root ?cs)
          (elements @ filter (\<lambda>e. GetTagName (element D e) = tag) (map root ts))"
    using tag_loop_level[OF Suc.prems(1), of tag "[]" elements] by simp
  also have "\<dots> = Some ((elements @ filter (\<lambda>e. GetTagName (element D e) = tag) (map root ts)) @
       concat (map (\<lambda>k. filter (\<lambda>e. GetTagName (element D e) = tag) (concat (map (nodes_at k) ?cs))) [0..<h]))"
    by (rule Suc.IH[OF wf ht])
  also have "\<dots> = Some (elements @ concat (map (\<lambda>k. filter (\<lambda>e. GetTagName (element D e) = tag)
                                          (concat (map (nodes_at k) ts))) [0..<Suc h]))"
    by (simp only: split lev) (simp add: comp_def lev0)
  finally show ?case .
qed

lemma class_loop_level:
  assumes "list_all (tree_of (GetChildren D)) ts"
  shows "GetElementsByClassName_loop D class_name (map root ts @ queue) elements =
         GetElementsByClassName_loop D class_name (queue @ map root (concat (map subtrees ts)))
           (elements @ filter (\<lambda>e. IsClassSet (element D e) class_name) (map root ts))"
  using assms
proof (induction ts arbitrary: queue elements)
  case Nil
  then show ?case by simp
next
  case (Cons t ts)
  then have t: "GetChildren D (root t) = map root (subtrees t)"
    and ts: "list_all (tree_of (GetChildren D)) ts"
    by (simp_all add: tree_of_children)
  show ?case
    apply (simp only: list.map append_Cons)
    apply (subst GetElementsByClassName_loop.simps)
    apply (simp only: list.case t)
    apply (simp add: Cons.IH[OF ts, of "queue @ map root (subtrees t)"])
    done
qed

lemma class_loop_forest:
  assumes "list_all (tree_of (GetChildren D)) ts" and "\<forall>t \<in> set ts. tree_height t \<le> h"
  shows "GetElementsByClassName_loop D class_name (map root ts) elements =
         Some (elements @ concat (map (\<lambda>k. filter (\<lambda>e. IsClassSet (element D e) class_name)
                                          (concat (map (nodes_at k) ts))) [0..<h]))"
  using assms
proof (induction h arbitrary: ts elements)
  case 0
  have "ts = []"
  proof (cases ts)
    case (Cons t ts')
    with 0 have "tree_height t \<le> 0" by simp
    then show ?thesis by (cases t) simp
  qed simp
  then show ?case by (simp add: GetElementsByClassName_loop.simps)
next
  case (Suc h)
  let ?cs = "concat (map subtrees ts)"
  have wf: "list_all (tree_of (GetChildren D)) ?cs"
    using Suc.prems(1) by (auto simp: list_all_iff intro: tree_of_subtrees)
  have ht: "\<forall>t \<in> set ?cs. tree_height t \<le> h"
    using Suc.prems(2) by (fastforce dest: subtree_height)
  have lev: "concat (map (nodes_at k) ?cs) = concat (map (nodes_at (Suc k)) ts)" for k
    by (induction ts) simp_all
  have lev0: "concat (map (nodes_at 0) ts) = map root ts"
    by (induction ts) simp_all
  have split: "[0..<Suc h] = 0 # map Suc [0..<h]"
    by (simp add: upt_conv_Cons map_Suc_upt del: upt_Suc)
  have "GetElementsByClassName_loop D class_name (map root ts) elements =
        GetElementsByClassName_loop D class_name (map root ?cs)
          (elements @ filter (\<lambda>e. IsClassSet (element D e) class_name) (map root ts))"
    using class_loop_level[OF Suc.prems(1), of class_name "[]" elements] by simp
  also have "\<dots> = Some ((elements @ filter (\<lambda>e. IsClassSet (element D e) class_name) (map root ts)) @
       concat (map (\<lambda>k. filter (\<lambda>e. IsClassSet (element D e) class_name) (concat (map (nodes_at k) ?cs))) [0..<h]))"
    by (rule Suc.IH[OF wf ht])
  also have "\<dots> = Some (elements @ concat (map (\<lambda>k. filter (\<lambda>e. IsClassSet (element D e) class_name)
                                          (concat (map (nodes_at k) ts))) [0..<Suc h]))"
    by (simp only: split lev) (simp add: comp_def lev0)
  finally show ?case .
qed

lemma tree_of_unique:
  "tree_of children t \<Longrightarrow> tree_of children t' \<Longrightarrow> root t = root t' \<Longrightarrow> t = t'"
proof (induction t arbitrary: t')
  case (Subtree r ts)
  obtain r' ts' where t': "t' = Subtree r' ts'" by (cases t')
  from Subtree.prems have r: "r' = r" and roots: "map root ts = map root ts'"
    and wf: "list_all (tree_of children) ts" and wf': "list_all (tree_of children) ts'"
    by (simp_all add: t')
  have len: "length ts = length ts'" using roots by (rule map_eq_imp_length_eq)
  have "ts ! i = ts' ! i" if "i < length ts" for i
  proof (rule Subtree.IH)
    show "ts ! i \<in> set ts" using that by simp
    show "tree_of children (ts ! i)" using wf that by (simp add: list_all_length)
    show "tree_of children (ts' ! i)" using wf' that len by (simp add: list_all_length)
    show "root (ts ! i) = root (ts' ! i)"
      using roots that len by (metis nth_map)
  qed
  with len have "ts = ts'" by (simp add: list_eq_iff_nth_eq)
  then show ?case by (simp add: t' r)
qed

lemma nodes_at_subtree:
  "tree_of children t \<Longrightarrow> e \<in> set (nodes_at (Suc k) t) \<Longrightarrow>
   \<exists>t'. tree_of children t' \<and> root t' = e \<and> tree_height t' < tree_height t"
proof (induction k arbitrary: t)
  case 0
  then obtain t' where "t' \<in> set (subtrees t)" "root t' = e" by auto
  with 0 show ?case by (auto intro: tree_of_subtrees subtree_height)
next
  case (Suc k)
  then obtain c where c: "c \<in> set (subtrees t)" and e: "e \<in> set (nodes_at (Suc k) c)" by auto
  from Suc.IH[OF tree_of_subtrees[OF Suc.prems(1) c] e] subtree_height[OF c]
  show ?case by (auto intro: less_trans)
qed

lemma root_not_below:
  assumes "tree_of children t"
  shows "root t \<notin> set (nodes_at (Suc k) t)"
proof
  assume "root t \<in> set (nodes_at (Suc k) t)"
  from nodes_at_subtree[OF assms this] obtain t' where
    "tree_of children t'" "root t' = root t" "tree_height t' < tree_height t" by blast
  with tree_of_unique[OF this(1) assms this(2)] show False by simp
qed

lemma nodes_at_beyond_height: "tree_height t \<le> k \<Longrightarrow> nodes_at k t = []"
proof (induction k arbitrary: t)
  case 0
  then show ?case by (cases t) simp
next
  case (Suc k)
  have "nodes_at k c = []" if "c \<in> set (subtrees t)" for c
    using subtree_height[OF that] Suc.prems by (intro Suc.IH) simp
  then show ?case by simp
qed

text \<open>
  Claim C8. Let the elements under \<open>root_element\<close> form the finite tree \<open>t\<close>. Then both
  searches return, and what they append to the result list is, depth by depth from depth
  1 on, the matching elements of that depth from left to right: every match at depth
  \<open>k\<close> stands before every match at depth \<open>k + 1\<close>, and matches of one depth stand in
  tree order. The root is not among the elements visited, and no element lies at the
  depth \<open>tree_height t\<close> or deeper, so every descendant is visited.
\<close>

theorem GetElementsBy_level_order:
  assumes "tree_of (GetChildren D) t" and "root t = root_element"
  shows "GetElementsByTagName D elements root_element tag =
           Some (elements @ concat (map (\<lambda>k. filter (\<lambda>e. GetTagName (element D e) = tag) (nodes_at k t))
                                      [1..<tree_height t])) \<and>
         GetElementsByClassName D elements root_element class_name =
           Some (elements @ concat (map (\<lambda>k. filter (\<lambda>e. IsClassSet (element D e) class_name) (nodes_at k t))
                                      [1..<tree_height t])) \<and>
         root_element \<notin> set (concat (map (\<lambda>k. nodes_at k t) [1..<tree_height t])) \<and>
         (\<forall>k. tree_height t \<le> k \<longrightarrow> nodes_at k t = [])"
proof -
  let ?h = "tree_height t - 1"
  have wf: "list_all (tree_of (GetChildren D)) (subtrees t)"
    using assms(1) by (auto simp: list_all_iff intro: tree_of_subtrees)
  have ht: "\<forall>c \<in> set (subtrees t). tree_height c \<le> ?h"
    using subtree_height[of _ t] by fastforce
  have children: "GetChildren D root_element = map root (subtrees t)"
    using tree_of_children[OF assms(1)] assms(2) by simp
  have pos: "Suc ?h = tree_height t" by (cases t) simp
  have range: "map f [1..<tree_height t] = map (\<lambda>k. f (Suc k)) [0..<?h]" for f :: "nat \<Rightarrow> element_ptr list"
  proof -
    have "[1..<tree_height t] = map Suc [0..<?h]"
      using pos by (simp add: map_Suc_upt)
    then show ?thesis by (simp add: comp_def)
  qed
  have tag: "GetElementsByTagName D elements root_element tag =
           Some (elements @ concat (map (\<lambda>k. filter (\<lambda>e. GetTagName (element D e) = tag) (nodes_at k t))
                                      [1..<tree_height t]))"
    unfolding GetElementsByTagName_def children
    by (simp only: tag_loop_forest[OF wf ht] range nodes_at.simps)
  have cls: "GetElementsByClassName D elements root_element class_name =
           Some (elements @ concat (map (\<lambda>k. filter (\<lambda>e. IsClassSet (element D e) class_name) (nodes_at k t))
                                      [1..<tree_height t]))"
    unfolding GetElementsByClassName_def children
    by (simp only: class_loop_forest[OF wf ht] range nodes_at.simps)
  have "root_element \<notin> set (nodes_at k t)" if "1 \<le> k" for k
  proof -
    from that obtain j where "k = Suc j" by (cases k) auto
    then show ?thesis using root_not_below[OF assms(1), of j] assms(2) by simp
  qed
  then have no_root: "root_element \<notin> set (concat (map (\<lambda>k. nodes_at k t) [1..<tree_height t]))"
    by auto
  show ?thesis
    using tag cls no_root nodes_at_beyond_height by blast
qed

theorem GetElementsBy_level_order_witness:
  "tree_of (GetChildren search_document) (Subtree 0 [Subtree 1 [Subtree 3 []], Subtree 2 []]) \<and>
   GetElementsByTagName search_document [] 0 ''div'' = Some [1, 2, 3] \<and>
   GetElementsByClassName search_document [] 0 ''hit'' = Some [2, 3]"
proof -
  let ?t = "Subtree 0 [Subtree 1 [Subtree 3 []], Subtree 2 []]"
  have t: "tree_of (GetChildren search_document) ?t"
    by (simp add: search_document_def)
  have r: "root ?t = 0" by simp
  have h: "[1..<tree_height ?t] = [1, 2]"
    by (simp add: upt_rec)
  have n: "nodes_at 1 ?t = [1, 2]" "nodes_at 2 ?t = [3]"
    by (simp_all add: numeral_2_eq_2)
  from GetElementsBy_level_order[OF t r, of "[]" "''div''" "''hit''"]
  show ?thesis
    by (simp add: t h n search_document_def sample_element_def)
qed

end
